theory Spec2Isabelle
  imports Main "HOL-Library.Sublist"
begin

section \<open>Bulk page generation: the model\<close>

text \<open>
  The development embeds the generation pipeline of the programmatic SEO tool:
  \<^verbatim>\<open>backend/utils/templating.js\<close> (\<^verbatim>\<open>fill\<close>, \<^verbatim>\<open>makeUniqueSlug\<close>, \<^verbatim>\<open>buildFaqSchema\<close>,
  \<^verbatim>\<open>validateTemplate\<close>, \<^verbatim>\<open>processTemplate\<close>), the \<^verbatim>\<open>POST /generate\<close> handler of
  \<^verbatim>\<open>backend/routes/admin.js\<close>, the \<^verbatim>\<open>Page\<close> schema and the \<^verbatim>\<open>GET /:slug\<close> dispatcher.

  Strings are lists of characters. A row is the list of its own properties in
  \<^verbatim>\<open>Object.keys\<close> order, with string values. Thrown exceptions are values of a sum type,
  a loop that may run forever returns an option.
\<close>

subsection \<open>Errors\<close>

datatype js_error =
    SyntaxError
  | EngineError
  | TemplateProcessingError js_error
  | ValidationError
  | PersistenceError
  | ENOENT

subsection \<open>Substitution: \<^verbatim>\<open>fill\<close>\<close>

type_synonym row = "(string \<times> string) list"

text \<open>The source text of the pattern built for a key: \<^verbatim>\<open>`{${key}}`\<close>.\<close>

definition token :: "string \<Rightarrow> string" where
  "token key = CHR ''{'' # key @ ''}''"

text \<open>
  \<^verbatim>\<open>new RegExp(`{${key}}`, 'g')\<close> reads the key as pattern text. Three cases are told apart.
  A key of the shape \<^verbatim>\<open>n\<close>, \<^verbatim>\<open>n,\<close> or \<^verbatim>\<open>n,m\<close> (decimal digits) makes the pattern a braced
  quantifier with nothing to repeat, and the constructor throws. A key without any
  pattern syntax character makes the pattern match exactly the text of the token.
  Every other key is a pattern in its own right; what the engine does with it is the
  parameter \<open>re\<close> of the model (pattern source, replacement, subject).
\<close>

type_synonym regex_engine = "string \<Rightarrow> string \<Rightarrow> string \<Rightarrow> js_error + string"

definition is_digit :: "char \<Rightarrow> bool" where
  "is_digit c = (c \<in> set ''0123456789'')"

definition quantifier_like :: "string \<Rightarrow> bool" where
  "quantifier_like key =
     (let ds = takeWhile is_digit key; rest = dropWhile is_digit key
      in ds \<noteq> [] \<and>
         (case rest of [] \<Rightarrow> True | c # more \<Rightarrow> c = CHR '','' \<and> list_all is_digit more))"

definition syntax_chars :: "char list" where
  "syntax_chars = CHR 0x5C # ''^$.*+?()[]{}|''"

definition plain_key :: "string \<Rightarrow> bool" where
  "plain_key key = (list_all (\<lambda>c. c \<notin> set syntax_chars) key \<and> \<not> quantifier_like key)"

text \<open>
  The replacement text of \<^verbatim>\<open>String.prototype.replace\<close> is expanded at every match:
  \<^verbatim>\<open>$$\<close> is a dollar sign, \<^verbatim>\<open>$&\<close> the matched text, \<^verbatim>\<open>$`\<close> the subject before the match and
  \<^verbatim>\<open>$'\<close> the subject after it. The pattern of a plain key has no capture group, so
  \<^verbatim>\<open>$1\<close> and \<^verbatim>\<open>$<name>\<close> stand for themselves.
\<close>

fun expand_replacement :: "string \<Rightarrow> string \<Rightarrow> string \<Rightarrow> string \<Rightarrow> string" where
  "expand_replacement matched scanned remaining [] = []"
| "expand_replacement matched scanned remaining [c] = [c]"
| "expand_replacement matched scanned remaining (c # d # r) =
     (if c = CHR ''$'' then
        (if d = CHR ''$'' then CHR ''$'' # expand_replacement matched scanned remaining r
         else if d = CHR ''&'' then matched @ expand_replacement matched scanned remaining r
         else if d = CHR 0x60 then scanned @ expand_replacement matched scanned remaining r
         else if d = CHR 0x27 then remaining @ expand_replacement matched scanned remaining r
         else c # expand_replacement matched scanned remaining (d # r))
      else c # expand_replacement matched scanned remaining (d # r))"

text \<open>
  The global replace for a plain key: the subject is scanned from the left, a match of
  the token is replaced and the scan goes on behind it. \<open>scanned\<close> is the part of the
  subject the scan has passed.
\<close>

fun replace_token :: "string \<Rightarrow> string \<Rightarrow> string \<Rightarrow> string \<Rightarrow> string" where
  "replace_token key v scanned [] = []"
| "replace_token key v scanned (c # cs) =
     (if prefix (token key) (c # cs)
      then expand_replacement (token key) scanned (drop (length key + 1) cs) v
           @ replace_token key v (scanned @ token key) (drop (length key + 1) cs)
      else c # replace_token key v (scanned @ [c]) cs)"

definition replace_key :: "regex_engine \<Rightarrow> string \<Rightarrow> string \<Rightarrow> string \<Rightarrow> js_error + string" where
  "replace_key re key v result =
     (if quantifier_like key then Inl SyntaxError
      else if plain_key key then Inr (replace_token key v [] result)
      else re (token key) v result)"

text \<open>
  The \<^verbatim>\<open>forEach\<close> over \<^verbatim>\<open>Object.keys(vars)\<close>. The values are strings, for which
  \<^verbatim>\<open>vars[key] || ''\<close> is the value itself.
\<close>

fun fill_loop :: "regex_engine \<Rightarrow> row \<Rightarrow> string \<Rightarrow> js_error + string" where
  "fill_loop re [] result = Inr result"
| "fill_loop re ((key, v) # vars) result =
     (case replace_key re key v result of
        Inl e \<Rightarrow> Inl e
      | Inr result' \<Rightarrow> fill_loop re vars result')"

definition fill :: "regex_engine \<Rightarrow> string \<Rightarrow> row \<Rightarrow> js_error + string" where
  "fill re str vars = (if str = [] then Inr str else fill_loop re vars str)"

text \<open>
  The reference for one field, in the words of the spec: every occurrence of the token,
  taken from the left and without overlap, gives way to the value as it is, and the scan
  goes on behind the occurrence, so that an inserted value is not scanned. The reference
  for a row applies the fields one after the other, in the order of the keys.
\<close>

fun substitute_field :: "string \<Rightarrow> string \<Rightarrow> string \<Rightarrow> string" where
  "substitute_field key v [] = []"
| "substitute_field key v (c # cs) =
     (if prefix (token key) (c # cs)
      then v @ substitute_field key v (drop (length key + 1) cs)
      else c # substitute_field key v cs)"











text \<open>An engine for rows whose keys are all plain: it is never consulted there.\<close>

definition no_engine :: regex_engine where
  "no_engine pattern replacement subject = Inl EngineError"

subsection \<open>Slug allocation: \<^verbatim>\<open>makeUniqueSlug\<close>\<close>

text \<open>The decimal text of the counter in \<^verbatim>\<open>`${baseSlug}-${counter}`\<close>.\<close>

definition digit_char :: "nat \<Rightarrow> char" where
  "digit_char d = ''0123456789'' ! d"

fun decimal :: "nat \<Rightarrow> string" where
  "decimal n = (if n < 10 then [digit_char n] else decimal (n div 10) @ [digit_char (n mod 10)])"

declare decimal.simps [simp del]

text \<open>
  The second argument of \<^verbatim>\<open>makeUniqueSlug\<close> is either a function or any other value
  (\<^verbatim>\<open>typeof checkExists !== 'function'\<close>). The function is awaited: its promise resolves
  to a truth value or is rejected with an exception.
\<close>

datatype check_exists = NotAFunction | Callable "string \<Rightarrow> js_error + bool"

text \<open>A check that always resolves, to the value of a predicate.\<close>

definition resolved :: "(string \<Rightarrow> bool) \<Rightarrow> string \<Rightarrow> js_error + bool" where
  "resolved ex s = Inr (ex s)"

text \<open>
  The \<^verbatim>\<open>while\<close> loop, with its two variables. A rejected check leaves the loop with its
  exception. The loop has no bound: against a check that resolves to true for every
  candidate it does not return, which is the value \<open>None\<close>. The counter is a natural
  number; the source's counter is a double, exact up to \<open>2^53\<close>.
\<close>

partial_function (option) slug_loop ::
  "(string \<Rightarrow> js_error + bool) \<Rightarrow> string \<Rightarrow> string \<Rightarrow> nat \<Rightarrow> (js_error + string) option" where
  "slug_loop checkExists baseSlug finalSlug counter =
     (case checkExists finalSlug of
        Inl e \<Rightarrow> Some (Inl e)
      | Inr taken \<Rightarrow>
          if taken
          then slug_loop checkExists baseSlug (baseSlug @ ''-'' @ decimal counter) (counter + 1)
          else Some (Inr finalSlug))"

text \<open>
  \<^verbatim>\<open>slugify\<close> is the npm package of that name, a dependency that is not part of the
  repository: it is the parameter \<open>slugify\<close>. The package throws for an argument that is
  not a string only, and the seed is a string here.
\<close>

definition makeUniqueSlug ::
  "(string \<Rightarrow> string) \<Rightarrow> string \<Rightarrow> check_exists \<Rightarrow> (js_error + string) option" where
  "makeUniqueSlug slugify keyword checkExists =
     (if keyword = [] then Some (Inr [])
      else let baseSlug = slugify keyword in
        (case checkExists of
           NotAFunction \<Rightarrow> Some (Inr baseSlug)
         | Callable f \<Rightarrow> slug_loop f baseSlug baseSlug 1))"

text \<open>The sequence of candidates the loop probes: the base, then base-1, base-2, ...\<close>

definition candidate :: "string \<Rightarrow> nat \<Rightarrow> string" where
  "candidate baseSlug n = (if n = 0 then baseSlug else baseSlug @ ''-'' @ decimal n)"

text \<open>
  What the loop ends with at a candidate for which the check does not resolve to true:
  the exception of the rejected check, or the candidate itself.
\<close>

definition settled :: "(string \<Rightarrow> js_error + bool) \<Rightarrow> string \<Rightarrow> js_error + string" where
  "settled chk s = (case chk s of Inl e \<Rightarrow> Inl e | Inr t \<Rightarrow> Inr s)"

text \<open>Characters of a slug, and the runs of separators that become one hyphen.\<close>

definition to_lower :: "char \<Rightarrow> char" where
  "to_lower c =
     (case map_of (zip ''ABCDEFGHIJKLMNOPQRSTUVWXYZ'' ''abcdefghijklmnopqrstuvwxyz'') c of
        Some l \<Rightarrow> l | None \<Rightarrow> c)"

definition is_alnum :: "char \<Rightarrow> bool" where
  "is_alnum c =
     (c \<in> set ''abcdefghijklmnopqrstuvwxyzABCDEFGHIJKLMNOPQRSTUVWXYZ0123456789'')"

definition is_sep :: "char \<Rightarrow> bool" where
  "is_sep c = (c \<in> set [CHR '' '', CHR ''-'', CHR 0x09, CHR 0x0A, CHR 0x0D])"

fun hyphenate :: "string \<Rightarrow> string" where
  "hyphenate [] = []"
| "hyphenate [c] = (if is_sep c then [] else [c])"
| "hyphenate (c # d # cs) =
     (if is_sep c
      then (if is_sep d then hyphenate (d # cs) else CHR ''-'' # hyphenate (d # cs))
      else c # hyphenate (d # cs))"

text \<open>
  Modelled from the spec: the \<^verbatim>\<open>slugify\<close> package, which the source calls with the options
  \<^verbatim>\<open>lower\<close> and \<^verbatim>\<open>strict\<close> and which is not part of the repository. The spec says:
  normalize the seed into a URL-safe lowercase slug (strip punctuation, collapse
  whitespace/separators to hyphens). Letters and digits are kept, white space and
  hyphens separate words, every other character is dropped, and separators at either
  end are trimmed. It instantiates the parameter \<open>slugify\<close> in the examples.
\<close>

definition slugify_spec :: "string \<Rightarrow> string" where
  "slugify_spec s =
     map to_lower (hyphenate (dropWhile is_sep (filter (\<lambda>c. is_alnum c \<or> is_sep c) s)))"

subsection \<open>Structured data: \<^verbatim>\<open>buildFaqSchema\<close>\<close>

text \<open>A question/answer pair; either property may be missing.\<close>

record faq_item =
  q :: "string option"
  a :: "string option"

datatype json =
    JUndefined
  | JString string
  | JArray "json list"
  | JObject "(string \<times> json) list"

text \<open>A property is truthy when it is present and not the empty string.\<close>

definition truthy :: "string option \<Rightarrow> bool" where
  "truthy x = (case x of None \<Rightarrow> False | Some s \<Rightarrow> s \<noteq> [])"

definition json_of :: "string option \<Rightarrow> json" where
  "json_of x = (case x of None \<Rightarrow> JUndefined | Some s \<Rightarrow> JString s)"

definition question_entry :: "faq_item \<Rightarrow> json" where
  "question_entry faq =
     JObject [(''@type'', JString ''Question''),
              (''name'', json_of (q faq)),
              (''acceptedAnswer'',
                 JObject [(''@type'', JString ''Answer''), (''text'', json_of (a faq))])]"

definition buildFaqSchema :: "faq_item list \<Rightarrow> json" where
  "buildFaqSchema faqArray =
     (if faqArray = [] then JObject []
      else let validFaqs = filter (\<lambda>faq. truthy (q faq) \<and> truthy (a faq)) faqArray in
        if validFaqs = [] then JObject []
        else JObject [(''@context'', JString ''https://schema.org''),
                      (''@type'', JString ''FAQPage''),
                      (''mainEntity'', JArray (map question_entry validFaqs))])"

subsection \<open>Template validation: \<^verbatim>\<open>validateTemplate\<close>\<close>

text \<open>
  A template as it arrives in the request body. A string property that is absent
  behaves as the empty string (\<^verbatim>\<open>template.title || ''\<close>); \<^verbatim>\<open>sections\<close>, \<^verbatim>\<open>faq\<close> and
  \<^verbatim>\<open>variables\<close> are \<open>None\<close> when they are not arrays.
\<close>

record template =
  template_title :: string
  template_metaDescription :: string
  template_h1 :: string
  template_sections :: "string list option"
  template_faq :: "faq_item list option"
  template_templateKey :: string
  template_variables :: "string list option"

record validation =
  isValid :: bool
  missing :: "string list"
  error :: "string option"

fun join :: "string \<Rightarrow> string list \<Rightarrow> string" where
  "join sep [] = []"
| "join sep [x] = x"
| "join sep (x # y # ys) = x @ sep @ join sep (y # ys)"

definition validateTemplate :: "template \<Rightarrow> string list \<Rightarrow> validation" where
  "validateTemplate tpl csvHeaders =
     (case template_variables tpl of
        None \<Rightarrow> \<lparr>isValid = False, missing = [],
                 error = Some ''Template must have a variables array''\<rparr>
      | Some variables \<Rightarrow>
          let missing = filter (\<lambda>variable. variable \<notin> set csvHeaders) variables in
          \<lparr>isValid = (missing = []), missing = missing,
           error = (if missing \<noteq> [] then Some (''Missing CSV columns: '' @ join '', '' missing)
                    else None)\<rparr>)"

subsection \<open>One row: \<^verbatim>\<open>processTemplate\<close>\<close>

record processed =
  title :: string
  metaDescription :: string
  h1 :: string
  sections :: "string list"
  faq :: "faq_item list"
  templateKey :: string
  faqSchema :: json
  slug :: string

fun fill_all :: "regex_engine \<Rightarrow> string list \<Rightarrow> row \<Rightarrow> js_error + string list" where
  "fill_all re [] vars = Inr []"
| "fill_all re (s # ss) vars =
     (case fill re s vars of
        Inl e \<Rightarrow> Inl e
      | Inr s' \<Rightarrow> (case fill_all re ss vars of Inl e \<Rightarrow> Inl e | Inr ss' \<Rightarrow> Inr (s' # ss')))"

definition or_empty :: "string option \<Rightarrow> string" where
  "or_empty x = (case x of None \<Rightarrow> [] | Some s \<Rightarrow> s)"

fun fill_faq :: "regex_engine \<Rightarrow> faq_item list \<Rightarrow> row \<Rightarrow> js_error + faq_item list" where
  "fill_faq re [] vars = Inr []"
| "fill_faq re (faqItem # items) vars =
     (case fill re (or_empty (q faqItem)) vars of
        Inl e \<Rightarrow> Inl e
      | Inr q' \<Rightarrow>
          (case fill re (or_empty (a faqItem)) vars of
             Inl e \<Rightarrow> Inl e
           | Inr a' \<Rightarrow>
               (case fill_faq re items vars of
                  Inl e \<Rightarrow> Inl e
                | Inr items' \<Rightarrow> Inr (\<lparr>q = Some q', a = Some a'\<rparr> # items'))))"

text \<open>\<^verbatim>\<open>vars.keyword || vars[Object.keys(vars)[0]] || ''\<close>\<close>

definition primaryKeyword :: "row \<Rightarrow> string" where
  "primaryKeyword vars =
     (let first = (case vars of [] \<Rightarrow> [] | (key, v) # rest \<Rightarrow> v) in
      case map_of vars ''keyword'' of
        None \<Rightarrow> first
      | Some v \<Rightarrow> if v \<noteq> [] then v else first)"

text \<open>
  The substituted content of a row: everything \<^verbatim>\<open>processTemplate\<close> computes before the
  slug. An exception of a substitution leaves the \<^verbatim>\<open>try\<close> block, and so does an
  exception of the slug allocation; the \<^verbatim>\<open>catch\<close> block throws it on, wrapped.
\<close>

definition fill_template :: "regex_engine \<Rightarrow> template \<Rightarrow> row \<Rightarrow> js_error + processed" where
  "fill_template re tpl vars =
     (case fill re (template_title tpl) vars of Inl e \<Rightarrow> Inl e | Inr title' \<Rightarrow>
      case fill re (template_metaDescription tpl) vars of Inl e \<Rightarrow> Inl e | Inr metaDescription' \<Rightarrow>
      case fill re (template_h1 tpl) vars of Inl e \<Rightarrow> Inl e | Inr h1' \<Rightarrow>
      case (case template_sections tpl of None \<Rightarrow> Inr [] | Some ss \<Rightarrow> fill_all re ss vars) of
        Inl e \<Rightarrow> Inl e | Inr sections' \<Rightarrow>
      case (case template_faq tpl of None \<Rightarrow> Inr [] | Some items \<Rightarrow> fill_faq re items vars) of
        Inl e \<Rightarrow> Inl e | Inr faq' \<Rightarrow>
      Inr \<lparr>title = title', metaDescription = metaDescription', h1 = h1',
           sections = sections', faq = faq',
           templateKey = (if template_templateKey tpl = [] then ''default''
                          else template_templateKey tpl),
           faqSchema = buildFaqSchema faq', slug = []\<rparr>)"

definition processTemplate ::
  "regex_engine \<Rightarrow> (string \<Rightarrow> string) \<Rightarrow> template \<Rightarrow> row \<Rightarrow> check_exists
     \<Rightarrow> (js_error + processed) option" where
  "processTemplate re slugify tpl vars checkSlugExists =
     (case fill_template re tpl vars of
        Inl e \<Rightarrow> Some (Inl (TemplateProcessingError e))
      | Inr content \<Rightarrow>
          (case makeUniqueSlug slugify (primaryKeyword vars) checkSlugExists of
             None \<Rightarrow> None
           | Some (Inl e) \<Rightarrow> Some (Inl (TemplateProcessingError e))
           | Some (Inr s) \<Rightarrow> Some (Inr (content\<lparr>slug := s\<rparr>))))"

subsection \<open>The store of pages\<close>

record page = processed +
  vars :: row

text \<open>\<^verbatim>\<open>Page.findOne({ slug })\<close>, when the store answers.\<close>

definition findOne :: "page list \<Rightarrow> string \<Rightarrow> page option" where
  "findOne db s = find (\<lambda>p. slug p = s) db"

text \<open>
  The existence check of the generation handler awaits \<^verbatim>\<open>Page.findOne\<close>. The query can be
  rejected by the persistence layer instead of being answered; for which store and slug
  that happens is the parameter \<open>rejects\<close>.
\<close>

definition checkSlugExists ::
  "(page list \<Rightarrow> string \<Rightarrow> bool) \<Rightarrow> page list \<Rightarrow> string \<Rightarrow> js_error + bool" where
  "checkSlugExists rejects db s =
     (if rejects db s then Inl PersistenceError else Inr (findOne db s \<noteq> None))"

text \<open>
  The validators of the \<^verbatim>\<open>Page\<close> schema that \<^verbatim>\<open>save\<close> runs: the \<^verbatim>\<open>required\<close> string paths,
  which reject the empty string.
\<close>

definition required_paths :: "page \<Rightarrow> bool" where
  "required_paths p =
     (slug p \<noteq> [] \<and> title p \<noteq> [] \<and> metaDescription p \<noteq> [] \<and> h1 p \<noteq> [] \<and> templateKey p \<noteq> [])"

text \<open>
  \<^verbatim>\<open>page.save()\<close>. Whatever else makes the persistence layer refuse a document (the element
  validators of \<^verbatim>\<open>sections\<close> and \<^verbatim>\<open>faq\<close>, the unique index on \<^verbatim>\<open>slug\<close>, the connection) is the
  parameter \<open>accepts\<close>; no property below relies on it.
\<close>

definition save :: "(page list \<Rightarrow> page \<Rightarrow> bool) \<Rightarrow> page list \<Rightarrow> page \<Rightarrow> js_error + page list" where
  "save accepts db p =
     (if \<not> required_paths p then Inl ValidationError
      else if \<not> accepts db p then Inl PersistenceError
      else Inr (db @ [p]))"

subsection \<open>The batch: \<^verbatim>\<open>POST /generate\<close>\<close>

record platform =
  regex_replace :: regex_engine
  slugify :: "string \<Rightarrow> string"
  rejects :: "page list \<Rightarrow> string \<Rightarrow> bool"
  accepts :: "page list \<Rightarrow> page \<Rightarrow> bool"

record results =
  success :: nat
  skipped :: nat
  errors :: nat
  pages :: "(string \<times> string) list"

datatype response =
    BadRequest "string option" "string list option"
  | Generated results

definition pageData :: "processed \<Rightarrow> row \<Rightarrow> page" where
  "pageData processedData rowData =
     \<lparr>title = title processedData, metaDescription = metaDescription processedData,
      h1 = h1 processedData, sections = sections processedData, faq = faq processedData,
      templateKey = templateKey processedData, faqSchema = faqSchema processedData,
      slug = slug processedData, vars = rowData\<rparr>"

text \<open>
  The \<^verbatim>\<open>for\<close> loop over the rows. The state is the store and the counters. An exception
  of \<^verbatim>\<open>processTemplate\<close> or of \<^verbatim>\<open>save\<close> is caught inside the iteration.
\<close>

fun process_rows ::
  "platform \<Rightarrow> template \<Rightarrow> row list \<Rightarrow> page list \<Rightarrow> results \<Rightarrow> (page list \<times> results) option" where
  "process_rows P tpl [] db res = Some (db, res)"
| "process_rows P tpl (rowData # rows) db res =
     (case processTemplate (regex_replace P) (slugify P) tpl rowData
             (Callable (checkSlugExists (rejects P) db)) of
        None \<Rightarrow> None
      | Some (Inl e) \<Rightarrow> process_rows P tpl rows db (res\<lparr>errors := errors res + 1\<rparr>)
      | Some (Inr processedData) \<Rightarrow>
          (case save (accepts P) db (pageData processedData rowData) of
             Inl e \<Rightarrow> process_rows P tpl rows db (res\<lparr>errors := errors res + 1\<rparr>)
           | Inr db' \<Rightarrow>
               process_rows P tpl rows db'
                 (res\<lparr>success := success res + 1,
                      pages := pages res @ [(slug processedData, title processedData)]\<rparr>)))"

definition generate ::
  "platform \<Rightarrow> page list \<Rightarrow> row list \<Rightarrow> template \<Rightarrow> (page list \<times> response) option" where
  "generate P db rows tpl =
     (case rows of
        [] \<Rightarrow> Some (db, BadRequest (Some ''No data rows provided'') None)
      | first # rest \<Rightarrow>
          let headers = map fst first;
              templateValidation = validateTemplate tpl headers
          in if \<not> isValid templateValidation
             then Some (db, BadRequest (error templateValidation)
                                       (Some (missing templateValidation)))
             else (case process_rows P tpl rows db
                          \<lparr>success = 0, skipped = 0, errors = 0, pages = []\<rparr> of
                     None \<Rightarrow> None
                   | Some (db', res) \<Rightarrow> Some (db', Generated res)))"

definition summary :: "page \<Rightarrow> string \<times> string" where
  "summary p = (slug p, title p)"

text \<open>
  One row taken on its own, against a given store: the \<^verbatim>\<open>try\<close> block of the iteration ends
  with the page it has persisted, or with the exception that its \<^verbatim>\<open>catch\<close> block receives.
  The pages persisted by a list of such outcomes are the ones of the rows that succeeded.
\<close>

definition row_outcome ::
  "platform \<Rightarrow> template \<Rightarrow> page list \<Rightarrow> row \<Rightarrow> (js_error + page) option" where
  "row_outcome P tpl db rowData =
     (case processTemplate (regex_replace P) (slugify P) tpl rowData
             (Callable (checkSlugExists (rejects P) db)) of
        None \<Rightarrow> None
      | Some (Inl e) \<Rightarrow> Some (Inl e)
      | Some (Inr processedData) \<Rightarrow>
          (case save (accepts P) db (pageData processedData rowData) of
             Inl e \<Rightarrow> Some (Inl e)
           | Inr db' \<Rightarrow> Some (Inr (pageData processedData rowData))))"

fun persisted :: "(js_error + page) list \<Rightarrow> page list" where
  "persisted [] = []"
| "persisted (Inl e # outs) = persisted outs"
| "persisted (Inr p # outs) = p # persisted outs"

fun failures :: "(js_error + page) list \<Rightarrow> nat" where
  "failures [] = 0"
| "failures (Inl e # outs) = Suc (failures outs)"
| "failures (Inr p # outs) = failures outs"

subsection \<open>The render dispatcher: \<^verbatim>\<open>GET /:slug\<close>\<close>

record template_def =
  variant :: "string option"
  view :: "string option"
  legacyInline :: bool

definition TEMPLATE_MAP :: "(string \<times> template_def) list" where
  "TEMPLATE_MAP =
     [(''minimal'', \<lparr>variant = Some ''basic'', view = Some ''page_template_minimal'',
                     legacyInline = False\<rparr>),
      (''local-seo'', \<lparr>variant = Some ''basic'', view = Some ''page_template_minimal'',
                       legacyInline = False\<rparr>),
      (''service-landing'', \<lparr>variant = Some ''service'', view = Some ''page_template_modern_blue'',
                             legacyInline = False\<rparr>),
      (''modern-blue'', \<lparr>variant = Some ''service'', view = Some ''page_template_modern_blue'',
                         legacyInline = False\<rparr>),
      (''dark-pastel'', \<lparr>variant = Some ''dark'', view = Some ''page_template_dark_pastel'',
                         legacyInline = False\<rparr>),
      (''faq-rich'', \<lparr>variant = Some ''faq'', view = None, legacyInline = True\<rparr>)]"

text \<open>
  \<^verbatim>\<open>TEMPLATE_MAP\<close> is an object literal, and \<^verbatim>\<open>TEMPLATE_MAP[key]\<close> is a property read: a key
  that is not an own property is looked up in \<^verbatim>\<open>Object.prototype\<close>. The value found there
  is a function, or the prototype itself for \<^verbatim>\<open>__proto__\<close>: an object without the
  properties \<^verbatim>\<open>variant\<close>, \<^verbatim>\<open>view\<close> and \<^verbatim>\<open>legacyInline\<close>.
\<close>

definition object_prototype_properties :: "string list" where
  "object_prototype_properties =
     [''constructor'', ''__proto__'', ''hasOwnProperty'', ''isPrototypeOf'',
      ''propertyIsEnumerable'', ''toLocaleString'', ''toString'', ''valueOf'',
      ''__defineGetter__'', ''__defineSetter__'', ''__lookupGetter__'', ''__lookupSetter__'']"

definition inherited_value :: template_def where
  "inherited_value = \<lparr>variant = None, view = None, legacyInline = False\<rparr>"

definition get_property :: "string \<Rightarrow> template_def option" where
  "get_property key =
     (case map_of TEMPLATE_MAP key of
        Some d \<Rightarrow> Some d
      | None \<Rightarrow> if key \<in> set object_prototype_properties then Some inherited_value else None)"

text \<open>\<^verbatim>\<open>TEMPLATE_MAP[page.templateKey] || TEMPLATE_MAP['minimal']\<close>; every value is truthy.\<close>

definition resolve_templateDef :: "string \<Rightarrow> template_def option" where
  "resolve_templateDef key =
     (case get_property key of Some d \<Rightarrow> Some d | None \<Rightarrow> get_property ''minimal'')"

text \<open>A property inside a template literal: \<^verbatim>\<open>undefined\<close> prints as its name.\<close>

definition template_string :: "string option \<Rightarrow> string" where
  "template_string x = (case x of None \<Rightarrow> ''undefined'' | Some s \<Rightarrow> s)"

text \<open>
  The documents the route sends, by their parts rather than as markup. \<^verbatim>\<open>ejs.renderFile\<close>
  and the view files are outside the sources: the renderer is the parameter
  \<open>renderFile\<close>, from the file name of the view, the page and its related pages to the
  body or an exception.
\<close>

datatype document =
    NotFoundDocument string
  | ServerErrorDocument
  | InlineFaqDocument page "page list"
  | ViewDocument string string page

record http_response =
  status :: nat
  body :: document

definition relatedPages :: "page list \<Rightarrow> page \<Rightarrow> page list" where
  "relatedPages db p =
     take 6 (filter (\<lambda>r. templateKey r = templateKey p \<and> slug r \<noteq> slug p) db)"

definition get_slug ::
  "(string \<Rightarrow> page \<Rightarrow> page list \<Rightarrow> js_error + string) \<Rightarrow> page list \<Rightarrow> string \<Rightarrow> http_response" where
  "get_slug renderFile db s =
     (case findOne db s of
        None \<Rightarrow> \<lparr>status = 404, body = NotFoundDocument s\<rparr>
      | Some p \<Rightarrow>
          (case resolve_templateDef (templateKey p) of
             None \<Rightarrow> \<lparr>status = 500, body = ServerErrorDocument\<rparr>
           | Some templateDef \<Rightarrow>
               if legacyInline templateDef
               then \<lparr>status = 200, body = InlineFaqDocument p (relatedPages db p)\<rparr>
               else (case renderFile (template_string (view templateDef) @ ''.ejs'') p
                            (relatedPages db p) of
                       Inl e \<Rightarrow> \<lparr>status = 500, body = ServerErrorDocument\<rparr>
                     | Inr bodyHtml \<Rightarrow>
                         \<lparr>status = 200,
                          body = ViewDocument (template_string (variant templateDef)) bodyHtml p\<rparr>)))"

text \<open>
  A views directory that holds the three view files named in \<^verbatim>\<open>TEMPLATE_MAP\<close> and
  nothing else; each of them renders, here to the heading of the page.
\<close>

definition view_files :: "string list" where
  "view_files = [''page_template_minimal.ejs'', ''page_template_modern_blue.ejs'',
                 ''page_template_dark_pastel.ejs'']"

definition render_view_files :: "string \<Rightarrow> page \<Rightarrow> page list \<Rightarrow> js_error + string" where
  "render_view_files file p related = (if file \<in> set view_files then Inr (h1 p) else Inl ENOENT)"

subsection \<open>Sample data\<close>

definition plumber_template :: template where
  "plumber_template =
     \<lparr>template_title = ''{keyword} in {city}'', template_metaDescription = ''Find {keyword}'',
      template_h1 = ''{keyword}'', template_sections = None, template_faq = None,
      template_templateKey = ''minimal'', template_variables = Some [''keyword'', ''city'']\<rparr>"

definition sample_page :: "string \<Rightarrow> string \<Rightarrow> page" where
  "sample_page s key =
     \<lparr>title = ''Plumber'', metaDescription = ''Find plumber'', h1 = ''Plumber'', sections = [],
      faq = [], templateKey = key, faqSchema = JObject [], slug = s, vars = []\<rparr>"

text \<open>
  A platform whose store answers every query and accepts every valid page, and one whose
  store rejects the query for the slug \<^verbatim>\<open>roofer\<close>.
\<close>

definition never_rejects :: "page list \<Rightarrow> string \<Rightarrow> bool" where
  "never_rejects db s = False"

definition rejects_roofer :: "page list \<Rightarrow> string \<Rightarrow> bool" where
  "rejects_roofer db s = (s = ''roofer'')"

definition local_platform :: platform where
  "local_platform =
     \<lparr>regex_replace = no_engine, slugify = slugify_spec, rejects = never_rejects,
      accepts = (\<lambda>db p. True)\<rparr>"

definition flaky_platform :: platform where
  "flaky_platform =
     \<lparr>regex_replace = no_engine, slugify = slugify_spec, rejects = rejects_roofer,
      accepts = (\<lambda>db p. True)\<rparr>"

definition sample_rows :: "row list" where
  "sample_rows =
     [[(''keyword'', ''Plumber''), (''city'', ''Reno'')],
      [(''keyword'', []), (''city'', ''Reno'')],
      [(''keyword'', ''plumber''), (''city'', ''Elko'')]]"

section \<open>Substitution on well-formed templates\<close>


















section \<open>The slug loop and the batch\<close>

lemma digit_char_inj: "i < 10 \<Longrightarrow> j < 10 \<Longrightarrow> digit_char i = digit_char j \<Longrightarrow> i = j"
proof -
  assume i: "i < 10" and j: "j < 10" and eq: "digit_char i = digit_char j"
  have d: "distinct ''0123456789''" by simp
  have "i < length ''0123456789''" "j < length ''0123456789''" using i j by simp_all
  with d eq show "i = j" unfolding digit_char_def by (simp only: nth_eq_iff_index_eq)
qed

lemma decimal_nonempty: "decimal n \<noteq> []"
  by (subst decimal.simps) simp

lemma decimal_inj: "decimal n = decimal m \<Longrightarrow> n = m"
proof (induction n arbitrary: m rule: decimal.induct)
  case (1 n)
  show ?case
  proof (cases "n < 10")
    case True
    note n = this
    show ?thesis
    proof (cases "m < 10")
      case True
      with n "1.prems" show ?thesis
        by (simp add: decimal.simps [of n] decimal.simps [of m] digit_char_inj)
    next
      case False
      with n "1.prems" show ?thesis
        by (simp add: decimal.simps [of n] decimal.simps [of m] decimal_nonempty [THEN not_sym])
    qed
  next
    case False
    note n = this
    show ?thesis
    proof (cases "m < 10")
      case True
      with n "1.prems" show ?thesis
        by (simp add: decimal.simps [of n] decimal.simps [of m] decimal_nonempty)
    next
      case False
      with n "1.prems" have e: "decimal (n div 10) = decimal (m div 10)"
        and d: "digit_char (n mod 10) = digit_char (m mod 10)"
        by (simp_all add: decimal.simps [of n] decimal.simps [of m])
      from "1.IH" [OF n e] have quot: "n div 10 = m div 10" .
      from d have r: "n mod 10 = m mod 10" by (rule digit_char_inj [rotated 2]) simp_all
      from quot r show ?thesis by (metis div_mult_mod_eq)
    qed
  qed
qed

lemma candidate_inj: "candidate b n = candidate b m \<Longrightarrow> n = m"
  by (cases "n = 0"; cases "m = 0") (auto simp: candidate_def dest: decimal_inj)

lemma candidate_Suc: "candidate b (Suc n) = b @ ''-'' @ decimal (Suc n)"
  by (simp add: candidate_def)

lemma candidate_nonempty: "0 < n \<Longrightarrow> candidate b n \<noteq> []"
  by (simp add: candidate_def)

lemma slug_loop_first_settled:
  "chk (candidate b (k + d)) \<noteq> Inr True \<Longrightarrow> (\<forall>j < d. chk (candidate b (k + j)) = Inr True) \<Longrightarrow>
   slug_loop chk b (candidate b k) (Suc k) = Some (settled chk (candidate b (k + d)))"
proof (induction d arbitrary: k)
  case 0
  then show ?case
    by (subst slug_loop.simps) (auto simp: settled_def split: sum.splits)
next
  case (Suc d)
  have here: "chk (candidate b k) = Inr True" using Suc.prems(2) [rule_format, of 0] by simp
  have stop: "chk (candidate b (Suc k + d)) \<noteq> Inr True" using Suc.prems(1) by simp
  have busy: "\<forall>j < d. chk (candidate b (Suc k + j)) = Inr True"
  proof (intro allI impI)
    fix j assume "j < d"
    then have "Suc j < Suc d" by simp
    from Suc.prems(2) [rule_format, OF this] show "chk (candidate b (Suc k + j)) = Inr True"
      by simp
  qed
  from Suc.IH [OF stop busy]
  have "slug_loop chk b (candidate b (Suc k)) (Suc (Suc k)) =
        Some (settled chk (candidate b (Suc k + d)))" .
  with here show ?case
    by (subst slug_loop.simps) (simp add: candidate_Suc)
qed

lemma slug_loop_least:
  assumes "\<exists>n. chk (candidate b n) \<noteq> Inr True"
  shows "slug_loop chk b b 1 =
         Some (settled chk (candidate b (LEAST n. chk (candidate b n) \<noteq> Inr True)))"
proof -
  define m where "m = (LEAST n. chk (candidate b n) \<noteq> Inr True)"
  from assms have "chk (candidate b m) \<noteq> Inr True" unfolding m_def by (rule LeastI_ex)
  then have stop: "chk (candidate b (0 + m)) \<noteq> Inr True" by simp
  have busy: "\<forall>j < m. chk (candidate b (0 + j)) = Inr True"
  proof (intro allI impI)
    fix j assume "j < m"
    then have "\<not> chk (candidate b j) \<noteq> Inr True" unfolding m_def by (rule not_less_Least)
    then show "chk (candidate b (0 + j)) = Inr True" by simp
  qed
  have start: "candidate b 0 = b" by (simp add: candidate_def)
  from slug_loop_first_settled [OF stop busy]
  have "slug_loop chk b b 1 = Some (settled chk (candidate b m))"
    by (simp add: start)
  then show ?thesis unfolding m_def .
qed

lemma slug_loop_result_aux:
  assumes run: "slug_loop chk b f c = Some y"
  shows "\<forall>k. f = candidate b k \<longrightarrow> c = Suc k \<longrightarrow>
           (\<exists>n \<ge> k. chk (candidate b n) \<noteq> Inr True \<and> y = settled chk (candidate b n))"
proof (rule slug_loop.raw_induct
    [where P = "\<lambda>chk b f c y. \<forall>k. f = candidate b k \<longrightarrow> c = Suc k \<longrightarrow>
           (\<exists>n \<ge> k. chk (candidate b n) \<noteq> Inr True \<and> y = settled chk (candidate b n))",
     OF _ run])
  fix loop :: "(string \<Rightarrow> js_error + bool) \<Rightarrow> string \<Rightarrow> string \<Rightarrow> nat \<Rightarrow> (js_error + string) option"
  fix chk b f c y
  assume IH: "\<And>chk b f c y. loop chk b f c = Some y \<Longrightarrow>
      \<forall>k. f = candidate b k \<longrightarrow> c = Suc k \<longrightarrow>
        (\<exists>n \<ge> k. chk (candidate b n) \<noteq> Inr True \<and> y = settled chk (candidate b n))"
  assume step: "(case chk f of Inl e \<Rightarrow> Some (Inl e)
                 | Inr taken \<Rightarrow> if taken then loop chk b (b @ ''-'' @ decimal c) (c + 1)
                                else Some (Inr f)) = Some y"
  show "\<forall>k. f = candidate b k \<longrightarrow> c = Suc k \<longrightarrow>
          (\<exists>n \<ge> k. chk (candidate b n) \<noteq> Inr True \<and> y = settled chk (candidate b n))"
  proof (intro allI impI)
    fix k assume f: "f = candidate b k" and c: "c = Suc k"
    show "\<exists>n \<ge> k. chk (candidate b n) \<noteq> Inr True \<and> y = settled chk (candidate b n)"
    proof (cases "chk f = Inr True")
      case True
      with step have "loop chk b (b @ ''-'' @ decimal c) (c + 1) = Some y" by simp
      from IH [OF this, rule_format, of "Suc k"] c
      obtain n where "n \<ge> Suc k" "chk (candidate b n) \<noteq> Inr True"
        "y = settled chk (candidate b n)"
        by (auto simp: candidate_Suc)
      then show ?thesis by (intro exI [of _ n]) simp
    next
      case False
      with step have "y = settled chk f"
        by (auto simp: settled_def split: sum.splits if_splits)
      with False f show ?thesis by (intro exI [of _ k]) simp
    qed
  qed
qed

lemma slug_loop_result:
  "slug_loop chk b b 1 = Some y \<Longrightarrow>
   \<exists>n. chk (candidate b n) \<noteq> Inr True \<and> y = settled chk (candidate b n)"
  using slug_loop_result_aux [of chk b b 1 y] by (auto simp: candidate_def)

lemma slug_loop_diverges:
  assumes "\<forall>n. chk (candidate b n) = Inr True"
  shows "slug_loop chk b b 1 = None"
proof (rule ccontr)
  assume "slug_loop chk b b 1 \<noteq> None"
  then obtain y where "slug_loop chk b b 1 = Some y" by auto
  from slug_loop_result [OF this] obtain n where "chk (candidate b n) \<noteq> Inr True" by blast
  with assms show False by simp
qed

lemma settled_Inr: "settled chk c = Inr s \<Longrightarrow> chk c \<noteq> Inr True \<Longrightarrow> s = c \<and> chk c = Inr False"
  by (auto simp: settled_def split: sum.splits)

lemma slug_loop_returns_slug:
  "slug_loop chk b b 1 = Some (Inr s) \<Longrightarrow> chk s = Inr False \<and> (\<exists>n. s = candidate b n)"
proof -
  assume "slug_loop chk b b 1 = Some (Inr s)"
  from slug_loop_result [OF this] obtain n where n: "chk (candidate b n) \<noteq> Inr True"
    and y: "Inr s = settled chk (candidate b n)" by blast
  from settled_Inr [OF y [symmetric] n] show ?thesis by blast
qed

lemma slug_loop_empty_iff: "slug_loop chk b b 1 = Some (Inr []) \<longleftrightarrow> b = [] \<and> chk [] = Inr False"
proof
  assume run: "slug_loop chk b b 1 = Some (Inr [])"
  from slug_loop_returns_slug [OF run] obtain n where c: "chk [] = Inr False"
    and n: "[] = candidate b n" by blast
  have "n = 0" using n candidate_nonempty [of n b] by (cases n) auto
  with n c show "b = [] \<and> chk [] = Inr False" by (simp add: candidate_def)
next
  assume "b = [] \<and> chk [] = Inr False"
  then show "slug_loop chk b b 1 = Some (Inr [])" by (subst slug_loop.simps) simp
qed

lemma checkSlugExists_taken:
  "checkSlugExists rj db s = Inr True \<Longrightarrow> s \<in> set (map slug db)"
  by (auto simp: checkSlugExists_def findOne_def find_None_iff split: if_splits)

lemma checkSlugExists_free:
  "checkSlugExists rj db s = Inr False \<Longrightarrow> s \<notin> set (map slug db)"
  by (auto simp: checkSlugExists_def findOne_def find_None_iff split: if_splits)

lemma store_settles_candidate: "\<exists>n. checkSlugExists rj db (candidate b n) \<noteq> Inr True"
proof (rule ccontr)
  assume "\<not> (\<exists>n. checkSlugExists rj db (candidate b n) \<noteq> Inr True)"
  then have "range (candidate b) \<subseteq> set (map slug db)"
    using checkSlugExists_taken by blast
  then have "finite (range (candidate b))" by (rule finite_subset) simp
  moreover have "inj (candidate b)" by (rule injI) (rule candidate_inj)
  ultimately show False using finite_imageD by blast
qed

lemma makeUniqueSlug_store:
  "\<exists>r. makeUniqueSlug sl kw (Callable (checkSlugExists rj db)) = Some r \<and>
       (\<forall>s. r = Inr s \<longrightarrow> s = [] \<or> s \<notin> set (map slug db))"
proof (cases "kw = []")
  case True
  then show ?thesis by (simp add: makeUniqueSlug_def)
next
  case False
  let ?chk = "checkSlugExists rj db"
  from slug_loop_least [OF store_settles_candidate, of rj db "sl kw"]
  obtain r where r: "slug_loop ?chk (sl kw) (sl kw) 1 = Some r" by blast
  have "\<forall>s. r = Inr s \<longrightarrow> s \<notin> set (map slug db)"
  proof (intro allI impI)
    fix s assume "r = Inr s"
    with r have "slug_loop ?chk (sl kw) (sl kw) 1 = Some (Inr s)" by simp
    from slug_loop_returns_slug [OF this] have "?chk s = Inr False" by blast
    then show "s \<notin> set (map slug db)" by (rule checkSlugExists_free)
  qed
  with False r show ?thesis by (simp add: makeUniqueSlug_def Let_def)
qed

lemma processTemplate_store:
  "\<exists>r. processTemplate re sl tpl rw (Callable (checkSlugExists rj db)) = Some r \<and>
       (\<forall>pd. r = Inr pd \<longrightarrow> slug pd = [] \<or> slug pd \<notin> set (map slug db))"
proof (cases "fill_template re tpl rw")
  case (Inl e)
  then show ?thesis by (simp add: processTemplate_def)
next
  case (Inr content)
  from makeUniqueSlug_store [of sl "primaryKeyword rw" rj db]
  obtain r where r: "makeUniqueSlug sl (primaryKeyword rw) (Callable (checkSlugExists rj db)) = Some r"
    and fresh: "\<forall>s. r = Inr s \<longrightarrow> s = [] \<or> s \<notin> set (map slug db)" by blast
  show ?thesis
  proof (cases r)
    case (Inl e)
    with Inr r show ?thesis by (simp add: processTemplate_def)
  next
    case inr: (Inr s)
    with fresh have "s = [] \<or> s \<notin> set (map slug db)" by simp
    with Inr r inr show ?thesis by (simp add: processTemplate_def)
  qed
qed

lemma save_Inr: "save acc db p = Inr db' \<Longrightarrow> db' = db @ [p] \<and> slug p \<noteq> []"
  by (auto simp: save_def required_paths_def split: if_splits)

lemma pageData_sel [simp]:
  "slug (pageData pd rw) = slug pd" "title (pageData pd rw) = title pd"
  by (simp_all add: pageData_def)

text \<open>One row always has an outcome, and a persisted page has a slug that is new.\<close>

lemma row_outcome_total:
  "\<exists>out. row_outcome P tpl db rw = Some out \<and>
         (\<forall>p. out = Inr p \<longrightarrow> slug p \<noteq> [] \<and> slug p \<notin> set (map slug db))"
proof -
  from processTemplate_store [of "regex_replace P" "slugify P" tpl rw "rejects P" db]
  obtain r where r: "processTemplate (regex_replace P) (slugify P) tpl rw
                       (Callable (checkSlugExists (rejects P) db)) = Some r"
    and fresh: "\<forall>pd. r = Inr pd \<longrightarrow> slug pd = [] \<or> slug pd \<notin> set (map slug db)" by blast
  show ?thesis
  proof (cases r)
    case (Inl e)
    with r show ?thesis by (simp add: row_outcome_def)
  next
    case (Inr pd)
    show ?thesis
    proof (cases "save (accepts P) db (pageData pd rw)")
      case (Inl e)
      with r Inr show ?thesis by (simp add: row_outcome_def)
    next
      case saved: (Inr db')
      from save_Inr [OF saved] have "slug pd \<noteq> []" by simp
      with fresh Inr have "slug pd \<noteq> [] \<and> slug pd \<notin> set (map slug db)" by simp
      with r Inr saved show ?thesis by (simp add: row_outcome_def)
    qed
  qed
qed

text \<open>The iteration of the loop, in terms of the outcome of its row.\<close>

lemma process_rows_step:
  assumes "row_outcome P tpl db rw = Some out"
  shows "process_rows P tpl (rw # rows) db res =
     (case out of
        Inl e \<Rightarrow> process_rows P tpl rows db (res\<lparr>errors := errors res + 1\<rparr>)
      | Inr p \<Rightarrow> process_rows P tpl rows (db @ [p])
                  (res\<lparr>success := success res + 1, pages := pages res @ [summary p]\<rparr>))"
proof (cases "processTemplate (regex_replace P) (slugify P) tpl rw
                (Callable (checkSlugExists (rejects P) db))")
  case None
  with assms show ?thesis by (simp add: row_outcome_def)
next
  case (Some r)
  show ?thesis
  proof (cases r)
    case (Inl e)
    with Some assms have "out = Inl e" by (simp add: row_outcome_def)
    with Some Inl show ?thesis by simp
  next
    case (Inr pd)
    show ?thesis
    proof (cases "save (accepts P) db (pageData pd rw)")
      case (Inl e)
      with Some Inr assms have "out = Inl e" by (simp add: row_outcome_def)
      with Some Inr Inl show ?thesis by simp
    next
      case saved: (Inr db')
      with Some Inr assms have out: "out = Inr (pageData pd rw)" by (simp add: row_outcome_def)
      from save_Inr [OF saved] have db': "db' = db @ [pageData pd rw]" by simp
      from Some Inr saved out db' show ?thesis by (simp add: summary_def)
    qed
  qed
qed

lemma persisted_failures: "length (persisted outs) + failures outs = length outs"
  by (induction outs rule: persisted.induct) simp_all

lemma process_rows_outcomes:
  "\<exists>outs res'. length outs = length rows \<and>
     (\<forall>i < length rows.
        row_outcome P tpl (db @ persisted (take i outs)) (rows ! i) = Some (outs ! i)) \<and>
     process_rows P tpl rows db res = Some (db @ persisted outs, res') \<and>
     distinct (map slug (persisted outs)) \<and>
     set (map slug (persisted outs)) \<inter> set (map slug db) = {} \<and>
     success res' = success res + length (persisted outs) \<and>
     errors res' = errors res + failures outs \<and>
     skipped res' = skipped res \<and>
     pages res' = pages res @ map summary (persisted outs)"
proof (induction rows arbitrary: db res)
  case Nil
  show ?case by (intro exI [of _ "[]"] exI [of _ res]) simp
next
  case (Cons rw rows)
  from row_outcome_total [of P tpl db rw]
  obtain out where out: "row_outcome P tpl db rw = Some out"
    and fresh: "\<forall>p. out = Inr p \<longrightarrow> slug p \<noteq> [] \<and> slug p \<notin> set (map slug db)" by blast
  show ?case
  proof (cases out)
    case (Inl e)
    let ?res = "res\<lparr>errors := errors res + 1\<rparr>"
    from Cons.IH [of db ?res] obtain outs res' where
      len: "length outs = length rows"
      and each: "\<forall>i < length rows.
        row_outcome P tpl (db @ persisted (take i outs)) (rows ! i) = Some (outs ! i)"
      and run: "process_rows P tpl rows db ?res = Some (db @ persisted outs, res')"
      and d: "distinct (map slug (persisted outs))"
      and disj: "set (map slug (persisted outs)) \<inter> set (map slug db) = {}"
      and s: "success res' = success ?res + length (persisted outs)"
      and e: "errors res' = errors ?res + failures outs"
      and k: "skipped res' = skipped ?res"
      and pg: "pages res' = pages ?res @ map summary (persisted outs)" by blast
    let ?outs = "Inl e # outs"
    have 1: "length ?outs = length (rw # rows)" using len by simp
    have 2: "\<forall>i < length (rw # rows).
        row_outcome P tpl (db @ persisted (take i ?outs)) ((rw # rows) ! i) = Some (?outs ! i)"
    proof (intro allI impI)
      fix i assume i: "i < length (rw # rows)"
      show "row_outcome P tpl (db @ persisted (take i ?outs)) ((rw # rows) ! i) = Some (?outs ! i)"
      proof (cases i)
        case 0
        with out Inl show ?thesis by simp
      next
        case (Suc j)
        with i have "j < length rows" by simp
        from each [rule_format, OF this] Suc show ?thesis by simp
      qed
    qed
    have 3: "process_rows P tpl (rw # rows) db res = Some (db @ persisted ?outs, res')"
      using process_rows_step [OF out, of rows res] Inl run by simp
    have 4: "distinct (map slug (persisted ?outs))" using d by simp
    have 5: "set (map slug (persisted ?outs)) \<inter> set (map slug db) = {}" using disj by simp
    have 6: "success res' = success res + length (persisted ?outs)" using s by simp
    have 7: "errors res' = errors res + failures ?outs" using e by simp
    have 8: "skipped res' = skipped res" using k by simp
    have 9: "pages res' = pages res @ map summary (persisted ?outs)" using pg by simp
    from 1 2 3 4 5 6 7 8 9 show ?thesis by blast
  next
    case (Inr p)
    with fresh have ne: "slug p \<noteq> []" and new_slug: "slug p \<notin> set (map slug db)" by simp_all
    let ?res = "res\<lparr>success := success res + 1, pages := pages res @ [summary p]\<rparr>"
    from Cons.IH [of "db @ [p]" ?res] obtain outs res' where
      len: "length outs = length rows"
      and each: "\<forall>i < length rows.
        row_outcome P tpl ((db @ [p]) @ persisted (take i outs)) (rows ! i) = Some (outs ! i)"
      and run: "process_rows P tpl rows (db @ [p]) ?res = Some ((db @ [p]) @ persisted outs, res')"
      and d: "distinct (map slug (persisted outs))"
      and disj: "set (map slug (persisted outs)) \<inter> set (map slug (db @ [p])) = {}"
      and s: "success res' = success ?res + length (persisted outs)"
      and e: "errors res' = errors ?res + failures outs"
      and k: "skipped res' = skipped ?res"
      and pg: "pages res' = pages ?res @ map summary (persisted outs)" by blast
    let ?outs = "Inr p # outs"
    have 1: "length ?outs = length (rw # rows)" using len by simp
    have 2: "\<forall>i < length (rw # rows).
        row_outcome P tpl (db @ persisted (take i ?outs)) ((rw # rows) ! i) = Some (?outs ! i)"
    proof (intro allI impI)
      fix i assume i: "i < length (rw # rows)"
      show "row_outcome P tpl (db @ persisted (take i ?outs)) ((rw # rows) ! i) = Some (?outs ! i)"
      proof (cases i)
        case 0
        with out Inr show ?thesis by simp
      next
        case (Suc j)
        with i have "j < length rows" by simp
        from each [rule_format, OF this] Suc show ?thesis by simp
      qed
    qed
    have 3: "process_rows P tpl (rw # rows) db res = Some (db @ persisted ?outs, res')"
      using process_rows_step [OF out, of rows res] Inr run by simp
    have 4: "distinct (map slug (persisted ?outs))" using d disj by auto
    have 5: "set (map slug (persisted ?outs)) \<inter> set (map slug db) = {}"
      using disj new_slug by auto
    have 6: "success res' = success res + length (persisted ?outs)" using s by simp
    have 7: "errors res' = errors res + failures ?outs" using e by simp
    have 8: "skipped res' = skipped res" using k by simp
    have 9: "pages res' = pages res @ map summary (persisted ?outs)" using pg by simp
    from 1 2 3 4 5 6 7 8 9 show ?thesis by blast
  qed
qed

lemma generate_rejected:
  "\<not> isValid (validateTemplate tpl (map fst row1)) \<Longrightarrow>
   generate P db (row1 # rest) tpl =
   Some (db, BadRequest (error (validateTemplate tpl (map fst row1)))
                        (Some (missing (validateTemplate tpl (map fst row1)))))"
  by (simp add: generate_def Let_def)

lemma generate_accepted:
  "isValid (validateTemplate tpl (map fst row1)) \<Longrightarrow>
   process_rows P tpl (row1 # rest) db \<lparr>success = 0, skipped = 0, errors = 0, pages = []\<rparr> =
     Some (db', res) \<Longrightarrow>
   generate P db (row1 # rest) tpl = Some (db', Generated res)"
  by (simp add: generate_def Let_def)

text \<open>The loop goes on behind any prefix of the rows, from the state that prefix left.\<close>

lemma process_rows_append:
  "process_rows P tpl (rows1 @ rows2) db res =
     (case process_rows P tpl rows1 db res of
        None \<Rightarrow> None
      | Some (db', res') \<Rightarrow> process_rows P tpl rows2 db' res')"
  by (induction rows1 arbitrary: db res) (simp_all split: option.splits sum.splits)




text \<open>A check that always resolves is busy at a slug exactly when its predicate holds.\<close>

lemma resolved_busy: "(resolved ex s \<noteq> Inr True) = (\<not> ex s)"
  by (simp add: resolved_def)

lemma settled_resolved: "settled (resolved ex) s = Inr s"
  by (simp add: settled_def resolved_def)


lemma substitute_field_empty: "substitute_field key v [] = []"
  by simp




lemmas fill_eval = fill_def replace_key_def quantifier_like_def is_digit_def plain_key_def
  syntax_chars_def token_def

lemmas slug_eval = makeUniqueSlug_def slugify_spec_def is_alnum_def is_sep_def to_lower_def
  slug_loop.simps decimal.simps digit_char_def checkSlugExists_def findOne_def resolved_def
  never_rejects_def rejects_roofer_def

lemmas batch_eval = generate_def validateTemplate_def plumber_template_def sample_rows_def
  processTemplate_def fill_template_def primaryKeyword_def local_platform_def
  flaky_platform_def save_def required_paths_def pageData_def sample_page_def buildFaqSchema_def

lemmas render_eval = get_slug_def findOne_def sample_page_def resolve_templateDef_def
  get_property_def TEMPLATE_MAP_def object_prototype_properties_def inherited_value_def
  template_string_def render_view_files_def view_files_def relatedPages_def

section \<open>Slug uniqueness across a batch\<close>

text \<open>
  Claim C1. Whatever the store holds and whatever the persistence layer accepts, a batch
  returns, it only appends pages to the store, the slugs of the appended pages are
  pairwise distinct and none of them is the slug of a page that was there before; a
  store whose slugs are distinct before the batch has distinct slugs after it.
\<close>

theorem generate_slugs_unique:
  "\<exists>new resp. generate P db rows tpl = Some (db @ new, resp) \<and>
     distinct (map slug new) \<and> set (map slug new) \<inter> set (map slug db) = {} \<and>
     (distinct (map slug db) \<longrightarrow> distinct (map slug (db @ new)))"
proof (cases rows)
  case Nil
  then show ?thesis by (intro exI [of _ "[]"]) (simp add: generate_def)
next
  case (Cons row1 rest)
  show ?thesis
  proof (cases "isValid (validateTemplate tpl (map fst row1))")
    case False
    with Cons show ?thesis by (intro exI [of _ "[]"]) (simp add: generate_rejected)
  next
    case True
    from process_rows_outcomes [of rows P tpl db "\<lparr>success = 0, skipped = 0, errors = 0, pages = []\<rparr>"]
    obtain outs res' where
      run: "process_rows P tpl rows db \<lparr>success = 0, skipped = 0, errors = 0, pages = []\<rparr> =
              Some (db @ persisted outs, res')"
      and d: "distinct (map slug (persisted outs))"
      and disj: "set (map slug (persisted outs)) \<inter> set (map slug db) = {}" by blast
    have "generate P db rows tpl = Some (db @ persisted outs, Generated res')"
      using Cons True run by (simp add: generate_accepted)
    moreover have "distinct (map slug db) \<longrightarrow> distinct (map slug (db @ persisted outs))"
      using d disj by auto
    ultimately show ?thesis using d disj by blast
  qed
qed

theorem generate_slugs_unique_witness:
  "distinct (map slug [sample_page ''plumber'' ''minimal'']) \<and>
   (\<exists>new resp. generate local_platform [sample_page ''plumber'' ''minimal''] sample_rows
        plumber_template = Some ([sample_page ''plumber'' ''minimal''] @ new, resp) \<and>
      distinct (map slug ([sample_page ''plumber'' ''minimal''] @ new)))"
proof -
  have h: "distinct (map slug [sample_page ''plumber'' ''minimal''])" by simp
  from generate_slugs_unique
    [of local_platform "[sample_page ''plumber'' ''minimal'']" sample_rows plumber_template] h
  show ?thesis by blast
qed

lemma generate_sample_batch:
  "generate local_platform [sample_page ''plumber'' ''minimal''] sample_rows plumber_template =
   Some ([sample_page ''plumber'' ''minimal'',
          \<lparr>title = ''Plumber in Reno'', metaDescription = ''Find Plumber'', h1 = ''Plumber'',
           sections = [], faq = [], templateKey = ''minimal'', faqSchema = JObject [],
           slug = ''plumber-1'', vars = [(''keyword'', ''Plumber''), (''city'', ''Reno'')]\<rparr>,
          \<lparr>title = ''plumber in Elko'', metaDescription = ''Find plumber'', h1 = ''plumber'',
           sections = [], faq = [], templateKey = ''minimal'', faqSchema = JObject [],
           slug = ''plumber-2'', vars = [(''keyword'', ''plumber''), (''city'', ''Elko'')]\<rparr>],
         Generated \<lparr>success = 2, skipped = 0, errors = 1,
                    pages = [(''plumber-1'', ''Plumber in Reno''),
                             (''plumber-2'', ''plumber in Elko'')]\<rparr>)"
  by (simp add: batch_eval fill_eval slug_eval Let_def)

section \<open>Per-row errors\<close>

text \<open>
  The three ways in which a row fails: the substitution throws, the slug allocation
  throws because the store rejects a query, the store refuses the page. Each one is the
  outcome of that row and of no other.
\<close>

lemma row_outcome_substitution_fails:
  "fill_template (regex_replace P) tpl rw = Inl e \<Longrightarrow>
   row_outcome P tpl db rw = Some (Inl (TemplateProcessingError e))"
  by (simp add: row_outcome_def processTemplate_def)

lemma row_outcome_allocation_fails:
  "fill_template (regex_replace P) tpl rw = Inr content \<Longrightarrow>
   makeUniqueSlug (slugify P) (primaryKeyword rw) (Callable (checkSlugExists (rejects P) db)) =
     Some (Inl e) \<Longrightarrow>
   row_outcome P tpl db rw = Some (Inl (TemplateProcessingError e))"
  by (simp add: row_outcome_def processTemplate_def)

lemma row_outcome_save_fails:
  "fill_template (regex_replace P) tpl rw = Inr content \<Longrightarrow>
   makeUniqueSlug (slugify P) (primaryKeyword rw) (Callable (checkSlugExists (rejects P) db)) =
     Some (Inr s) \<Longrightarrow>
   save (accepts P) db (pageData (content\<lparr>slug := s\<rparr>) rw) = Inl e \<Longrightarrow>
   row_outcome P tpl db rw = Some (Inl e)"
  by (simp add: row_outcome_def processTemplate_def)

lemma row_outcome_persists:
  "fill_template (regex_replace P) tpl rw = Inr content \<Longrightarrow>
   makeUniqueSlug (slugify P) (primaryKeyword rw) (Callable (checkSlugExists (rejects P) db)) =
     Some (Inr s) \<Longrightarrow>
   save (accepts P) db (pageData (content\<lparr>slug := s\<rparr>) rw) = Inr db' \<Longrightarrow>
   row_outcome P tpl db rw = Some (Inr (pageData (content\<lparr>slug := s\<rparr>) rw))"
  by (simp add: row_outcome_def processTemplate_def)

text \<open>
  Claim C3. A batch whose template passes validation returns the summary of a
  generated batch, and every row has its own outcome: row \<open>i\<close> ends as it does when it is
  processed alone against the store that holds the pages of the rows before it that
  succeeded, whether or not rows before it failed. The pages appended to the store are
  the pages of the rows that succeeded, in order; the error count is the number of rows
  that failed, so that appended pages and errors add up to the number of rows; and the
  summary lists the slug and the title of each appended page.
\<close>

theorem generate_counts_rows:
  assumes "isValid (validateTemplate tpl (map fst row1))"
  shows "\<exists>outs res. length outs = length (row1 # rest) \<and>
           (\<forall>i < length (row1 # rest).
              row_outcome P tpl (db @ persisted (take i outs)) ((row1 # rest) ! i) =
                Some (outs ! i)) \<and>
           generate P db (row1 # rest) tpl = Some (db @ persisted outs, Generated res) \<and>
           errors res = failures outs \<and>
           length (persisted outs) + errors res = length (row1 # rest) \<and>
           success res = length (persisted outs) \<and> skipped res = 0 \<and>
           pages res = map summary (persisted outs)"
proof -
  let ?zero = "\<lparr>success = 0, skipped = 0, errors = 0, pages = []\<rparr>"
  from process_rows_outcomes [of "row1 # rest" P tpl db ?zero]
  obtain outs res where
    len: "length outs = length (row1 # rest)"
    and each: "\<forall>i < length (row1 # rest).
        row_outcome P tpl (db @ persisted (take i outs)) ((row1 # rest) ! i) = Some (outs ! i)"
    and run: "process_rows P tpl (row1 # rest) db ?zero = Some (db @ persisted outs, res)"
    and s: "success res = success ?zero + length (persisted outs)"
    and e: "errors res = errors ?zero + failures outs"
    and k: "skipped res = skipped ?zero"
    and pg: "pages res = pages ?zero @ map summary (persisted outs)"
    by blast
  have 1: "generate P db (row1 # rest) tpl = Some (db @ persisted outs, Generated res)"
    using assms run by (rule generate_accepted)
  have 2: "errors res = failures outs" using e by simp
  have 3: "length (persisted outs) + errors res = length (row1 # rest)"
    using persisted_failures [of outs] 2 len by simp
  have 4: "success res = length (persisted outs)" using s by simp
  have 5: "skipped res = 0" using k by simp
  have 6: "pages res = map summary (persisted outs)" using pg by simp
  from len each 1 2 3 4 5 6 show ?thesis by blast
qed

theorem generate_counts_rows_witness:
  "isValid (validateTemplate plumber_template (map fst [(''keyword'', ''Plumber''), (''city'', ''Reno'')])) \<and>
   (\<exists>outs res. length outs = 3 \<and>
      generate flaky_platform []
        ([(''keyword'', ''Plumber''), (''city'', ''Reno'')] #
         [[(''keyword'', ''Roofer''), (''city'', ''Elko'')],
          [(''keyword'', ''Plumber''), (''city'', ''Elko'')]])
        plumber_template = Some ([] @ persisted outs, Generated res) \<and>
      errors res = failures outs \<and> length (persisted outs) + errors res = 3 \<and>
      success res = length (persisted outs) \<and> pages res = map summary (persisted outs))"
proof -
  have h: "isValid (validateTemplate plumber_template
             (map fst [(''keyword'', ''Plumber''), (''city'', ''Reno'')]))"
    by (simp add: validateTemplate_def plumber_template_def)
  from generate_counts_rows [OF h, of "[[(''keyword'', ''Roofer''), (''city'', ''Elko'')],
          [(''keyword'', ''Plumber''), (''city'', ''Elko'')]]" flaky_platform "[]"]
  obtain outs res where
    o1: "length outs = length ([(''keyword'', ''Plumber''), (''city'', ''Reno'')] #
         [[(''keyword'', ''Roofer''), (''city'', ''Elko'')],
          [(''keyword'', ''Plumber''), (''city'', ''Elko'')]])"
    and o2: "generate flaky_platform []
        ([(''keyword'', ''Plumber''), (''city'', ''Reno'')] #
         [[(''keyword'', ''Roofer''), (''city'', ''Elko'')],
          [(''keyword'', ''Plumber''), (''city'', ''Elko'')]])
        plumber_template = Some ([] @ persisted outs, Generated res)"
    and o3: "errors res = failures outs"
    and o4: "length (persisted outs) + errors res =
        length ([(''keyword'', ''Plumber''), (''city'', ''Reno'')] #
         [[(''keyword'', ''Roofer''), (''city'', ''Elko'')],
          [(''keyword'', ''Plumber''), (''city'', ''Elko'')]])"
    and o5: "success res = length (persisted outs)"
    and o6: "pages res = map summary (persisted outs)" by blast
  from o1 have n1: "length outs = 3" by simp
  from o4 have n4: "length (persisted outs) + errors res = 3" by simp
  from n1 o2 o3 n4 o5 o6 have "\<exists>outs res. length outs = 3 \<and>
      generate flaky_platform []
        ([(''keyword'', ''Plumber''), (''city'', ''Reno'')] #
         [[(''keyword'', ''Roofer''), (''city'', ''Elko'')],
          [(''keyword'', ''Plumber''), (''city'', ''Elko'')]])
        plumber_template = Some ([] @ persisted outs, Generated res) \<and>
      errors res = failures outs \<and> length (persisted outs) + errors res = 3 \<and>
      success res = length (persisted outs) \<and> pages res = map summary (persisted outs)"
    by blast
  with h show ?thesis by (rule conjI)
qed

text \<open>
  A row whose key makes the pattern constructor throw, and a row for which the store
  rejects the query of the existence check: each is counted, and the rows behind it are
  processed and persisted.
\<close>

lemma generate_bad_key_row:
  "generate local_platform []
     [[(''keyword'', ''Plumber''), (''city'', ''Reno'')],
      [(''2'', ''x''), (''keyword'', ''Roofer''), (''city'', ''Elko'')],
      [(''keyword'', ''Plumber''), (''city'', ''Elko'')]]
     plumber_template =
   Some ([\<lparr>title = ''Plumber in Reno'', metaDescription = ''Find Plumber'', h1 = ''Plumber'',
           sections = [], faq = [], templateKey = ''minimal'', faqSchema = JObject [],
           slug = ''plumber'', vars = [(''keyword'', ''Plumber''), (''city'', ''Reno'')]\<rparr>,
          \<lparr>title = ''Plumber in Elko'', metaDescription = ''Find Plumber'', h1 = ''Plumber'',
           sections = [], faq = [], templateKey = ''minimal'', faqSchema = JObject [],
           slug = ''plumber-1'', vars = [(''keyword'', ''Plumber''), (''city'', ''Elko'')]\<rparr>],
         Generated \<lparr>success = 2, skipped = 0, errors = 1,
                    pages = [(''plumber'', ''Plumber in Reno''),
                             (''plumber-1'', ''Plumber in Elko'')]\<rparr>)"
  by (simp add: batch_eval fill_eval slug_eval Let_def)

lemma generate_rejected_query_row:
  "generate flaky_platform []
     [[(''keyword'', ''Plumber''), (''city'', ''Reno'')],
      [(''keyword'', ''Roofer''), (''city'', ''Elko'')],
      [(''keyword'', ''Plumber''), (''city'', ''Elko'')]]
     plumber_template =
   Some ([\<lparr>title = ''Plumber in Reno'', metaDescription = ''Find Plumber'', h1 = ''Plumber'',
           sections = [], faq = [], templateKey = ''minimal'', faqSchema = JObject [],
           slug = ''plumber'', vars = [(''keyword'', ''Plumber''), (''city'', ''Reno'')]\<rparr>,
          \<lparr>title = ''Plumber in Elko'', metaDescription = ''Find Plumber'', h1 = ''Plumber'',
           sections = [], faq = [], templateKey = ''minimal'', faqSchema = JObject [],
           slug = ''plumber-1'', vars = [(''keyword'', ''Plumber''), (''city'', ''Elko'')]\<rparr>],
         Generated \<lparr>success = 2, skipped = 0, errors = 1,
                    pages = [(''plumber'', ''Plumber in Reno''),
                             (''plumber-1'', ''Plumber in Elko'')]\<rparr>)"
  by (simp add: batch_eval fill_eval slug_eval Let_def)

section \<open>Failing fast on an invalid template\<close>

text \<open>
  Claim C4. When the template fails validation against the keys of the first row, the
  handler answers with the error text and the list of missing variables of the
  validation, and the store is the one it started with: no row is processed. The list
  of missing variables is the declared variables that are not among the keys of the
  first row (the empty list when the template declares no variables array).
\<close>

theorem generate_invalid_template_fails_fast:
  assumes "\<not> isValid (validateTemplate tpl (map fst row1))"
  shows "generate P db (row1 # rest) tpl =
           Some (db, BadRequest (error (validateTemplate tpl (map fst row1)))
                                (Some (missing (validateTemplate tpl (map fst row1))))) \<and>
         missing (validateTemplate tpl (map fst row1)) =
           (case template_variables tpl of
              None \<Rightarrow> []
            | Some variables \<Rightarrow> filter (\<lambda>x. x \<notin> set (map fst row1)) variables)"
  using assms by (simp add: generate_def validateTemplate_def Let_def split: option.splits)

theorem generate_invalid_template_fails_fast_witness:
  "\<not> isValid (validateTemplate plumber_template (map fst [(''keyword'', ''plumber'')])) \<and>
   generate local_platform [] ([(''keyword'', ''plumber'')] # []) plumber_template =
     Some ([], BadRequest (Some ''Missing CSV columns: city'') (Some [''city'']))"
proof -
  have h: "\<not> isValid (validateTemplate plumber_template (map fst [(''keyword'', ''plumber'')]))"
    by (simp add: validateTemplate_def plumber_template_def)
  from generate_invalid_template_fails_fast [OF h, of local_platform "[]" "[]"] h
  show ?thesis by (simp add: validateTemplate_def plumber_template_def)
qed

section \<open>The allocated slug\<close>

text \<open>
  With any check, rejecting or not: a seed that is not empty ends at the first candidate
  for which the check does not resolve to true, with that candidate or with the
  exception of the check.
\<close>

lemma makeUniqueSlug_first_settled:
  assumes "kw \<noteq> []" "\<exists>n. chk (candidate (sl kw) n) \<noteq> Inr True"
  shows "makeUniqueSlug sl kw (Callable chk) =
         Some (settled chk (candidate (sl kw) (LEAST n. chk (candidate (sl kw) n) \<noteq> Inr True)))"
  using assms(1) slug_loop_least [OF assms(2)] by (simp add: makeUniqueSlug_def Let_def)

text \<open>
  Claim C5, as amended. For a seed that is not empty, allocation with a predicate
  returns the first of the candidates base, base-1, base-2, ... of which the predicate is
  false, and it does not return when the predicate holds of all of them. (The empty
  seed yields the empty slug without the predicate being asked.)
\<close>

theorem makeUniqueSlug_first_free:
  assumes "kw \<noteq> []"
  shows "if \<exists>n. \<not> ex (candidate (sl kw) n)
         then makeUniqueSlug sl kw (Callable (resolved ex)) =
              Some (Inr (candidate (sl kw) (LEAST n. \<not> ex (candidate (sl kw) n))))
         else makeUniqueSlug sl kw (Callable (resolved ex)) = None"
proof (cases "\<exists>n. \<not> ex (candidate (sl kw) n)")
  case True
  then have "\<exists>n. resolved ex (candidate (sl kw) n) \<noteq> Inr True" by (simp only: resolved_busy)
  from slug_loop_least [OF this]
  have "slug_loop (resolved ex) (sl kw) (sl kw) 1 =
        Some (Inr (candidate (sl kw) (LEAST n. \<not> ex (candidate (sl kw) n))))"
    by (simp only: resolved_busy settled_resolved)
  with assms True show ?thesis by (simp add: makeUniqueSlug_def Let_def)
next
  case False
  then have "\<forall>n. resolved ex (candidate (sl kw) n) = Inr True" by (simp add: resolved_def)
  from slug_loop_diverges [OF this] assms False show ?thesis
    by (simp add: makeUniqueSlug_def Let_def)
qed

theorem makeUniqueSlug_first_free_witness:
  "''Foo'' \<noteq> [] \<and>
   makeUniqueSlug slugify_spec ''Foo'' (Callable (resolved (\<lambda>s. s \<in> {''foo'', ''foo-1''}))) =
     Some (Inr ''foo-2'')"
proof -
  let ?ex = "\<lambda>s. s \<in> {''foo'', ''foo-1''}"
  have h: "''Foo'' \<noteq> []" by simp
  have base: "slugify_spec ''Foo'' = ''foo''"
    by (simp add: slugify_spec_def is_alnum_def is_sep_def to_lower_def)
  have c: "candidate ''foo'' 0 = ''foo''" "candidate ''foo'' 1 = ''foo-1''"
    "candidate ''foo'' 2 = ''foo-2''"
    by (simp_all add: candidate_def decimal.simps digit_char_def)
  have free: "\<not> ?ex (candidate ''foo'' 2)" by (simp add: c)
  have least: "(LEAST n. \<not> ?ex (candidate ''foo'' n)) = 2"
  proof (rule Least_equality)
    show "\<not> ?ex (candidate ''foo'' 2)" by (rule free)
  next
    fix y assume y: "\<not> ?ex (candidate ''foo'' y)"
    show "2 \<le> y"
    proof (rule ccontr)
      assume "\<not> 2 \<le> y"
      then have "y = 0 \<or> y = 1" by arith
      with y c show False by auto
    qed
  qed
  have some: "\<exists>n. \<not> ?ex (candidate (slugify_spec ''Foo'') n)" using free base by auto
  from makeUniqueSlug_first_free [OF h, of ?ex slugify_spec] some
  have "makeUniqueSlug slugify_spec ''Foo'' (Callable (resolved ?ex)) =
        Some (Inr (candidate (slugify_spec ''Foo'')
                     (LEAST n. \<not> ?ex (candidate (slugify_spec ''Foo'') n))))"
    by (simp only: if_True)
  then have "makeUniqueSlug slugify_spec ''Foo'' (Callable (resolved ?ex)) = Some (Inr ''foo-2'')"
    unfolding base least c(3) .
  with h show ?thesis by (rule conjI)
qed

theorem empty_seed_skips_predicate:
  "makeUniqueSlug slugify_spec [] (Callable (resolved ((=) []))) = Some (Inr []) \<and>
   candidate (slugify_spec []) 0 = [] \<and> candidate (slugify_spec []) 1 = ''-1'' \<and>
   (=) [] (candidate (slugify_spec []) 0) \<and> \<not> (=) [] (candidate (slugify_spec []) 1)"
  by (simp add: makeUniqueSlug_def slugify_spec_def candidate_def decimal.simps digit_char_def)

text \<open>
  Claim C6, as amended. Allocation yields the empty slug exactly when the seed is empty,
  or the normalised seed is empty and no predicate is supplied or the predicate is false
  of the empty string.
\<close>

theorem makeUniqueSlug_empty_iff:
  "makeUniqueSlug sl kw chk = Some (Inr []) \<longleftrightarrow>
     (kw = [] \<or>
      (sl kw = [] \<and> (case chk of NotAFunction \<Rightarrow> True | Callable f \<Rightarrow> f [] = Inr False)))"
  by (cases chk)
     (auto simp add: makeUniqueSlug_def Let_def slug_loop_empty_iff simp del: One_nat_def)

theorem makeUniqueSlug_empty_iff_witness:
  "makeUniqueSlug slugify_spec ''!''
     (Callable (checkSlugExists never_rejects [sample_page ''plumber'' ''minimal''])) = Some (Inr [])
   \<and> makeUniqueSlug slugify_spec ''Foo'' (Callable (checkSlugExists never_rejects [])) \<noteq> Some (Inr [])"
proof -
  have b: "slugify_spec ''!'' = []" "slugify_spec ''Foo'' = ''foo''"
    by (simp_all add: slugify_spec_def is_alnum_def is_sep_def to_lower_def)
  have n: "checkSlugExists never_rejects [sample_page ''plumber'' ''minimal''] [] = Inr False"
    by (simp add: checkSlugExists_def never_rejects_def findOne_def sample_page_def)
  show ?thesis
    using makeUniqueSlug_empty_iff [of slugify_spec "''!''"
        "Callable (checkSlugExists never_rejects [sample_page ''plumber'' ''minimal''])"]
      makeUniqueSlug_empty_iff [of slugify_spec "''Foo''" "Callable (checkSlugExists never_rejects [])"]
      b n
    by simp
qed

theorem empty_base_taken_yields_suffix:
  "slugify_spec ''!'' = [] \<and>
   makeUniqueSlug slugify_spec ''!'' (Callable (resolved ((=) []))) = Some (Inr ''-1'')"
  by (simp add: slug_eval)

text \<open>
  Claim C10. Without a callable predicate the result is the normalised seed itself
  (for a normalisation that maps the empty seed to the empty slug), also when a page of
  that slug exists; with a predicate that holds of the normalised seed the result is
  never that slug.
\<close>

theorem makeUniqueSlug_without_predicate:
  assumes "sl [] = []"
  shows "makeUniqueSlug sl kw NotAFunction = Some (Inr (sl kw)) \<and>
         (kw \<noteq> [] \<and> f (sl kw) = Inr True \<longrightarrow>
            makeUniqueSlug sl kw (Callable f) \<noteq> Some (Inr (sl kw)))"
proof
  show "makeUniqueSlug sl kw NotAFunction = Some (Inr (sl kw))"
    using assms by (simp add: makeUniqueSlug_def)
next
  show "kw \<noteq> [] \<and> f (sl kw) = Inr True \<longrightarrow>
          makeUniqueSlug sl kw (Callable f) \<noteq> Some (Inr (sl kw))"
  proof (intro impI notI)
    assume h: "kw \<noteq> [] \<and> f (sl kw) = Inr True"
      and r: "makeUniqueSlug sl kw (Callable f) = Some (Inr (sl kw))"
    from h r have "slug_loop f (sl kw) (sl kw) 1 = Some (Inr (sl kw))"
      by (simp add: makeUniqueSlug_def Let_def)
    from slug_loop_returns_slug [OF this] have "f (sl kw) = Inr False" by blast
    with h show False by simp
  qed
qed

theorem makeUniqueSlug_without_predicate_witness:
  "slugify_spec [] = [] \<and> ''Foo'' \<noteq> [] \<and>
   checkSlugExists never_rejects [sample_page ''foo'' ''minimal''] (slugify_spec ''Foo'') = Inr True \<and>
   makeUniqueSlug slugify_spec ''Foo'' NotAFunction = Some (Inr ''foo'') \<and>
   makeUniqueSlug slugify_spec ''Foo''
     (Callable (checkSlugExists never_rejects [sample_page ''foo'' ''minimal''])) \<noteq> Some (Inr ''foo'')"
proof -
  have h: "slugify_spec [] = []" by (simp add: slugify_spec_def)
  have b: "slugify_spec ''Foo'' = ''foo''"
    by (simp add: slugify_spec_def is_alnum_def is_sep_def to_lower_def)
  have t: "checkSlugExists never_rejects [sample_page ''foo'' ''minimal''] (slugify_spec ''Foo'') = Inr True"
    by (simp add: b checkSlugExists_def never_rejects_def findOne_def sample_page_def)
  from makeUniqueSlug_without_predicate
    [of slugify_spec "''Foo''" "checkSlugExists never_rejects [sample_page ''foo'' ''minimal'']"] t h
  show ?thesis by (simp add: b)
qed

section \<open>Substitution\<close>







section \<open>Structured data\<close>

text \<open>
  Claim C8. The builder keeps exactly the pairs whose question and answer are both
  present and not empty. When none is left the result is the empty object, which is
  neither an array nor undefined; otherwise it is the FAQ page object with one entry per
  kept pair, in order. The empty list and the list of one pair of empty strings give the
  empty object; the pair \<^verbatim>\<open>A?\<close>, \<^verbatim>\<open>B.\<close> gives one entry.
\<close>

theorem buildFaqSchema_valid_pairs:
  "buildFaqSchema items =
     (if filter (\<lambda>faq. truthy (q faq) \<and> truthy (a faq)) items = [] then JObject []
      else JObject [(''@context'', JString ''https://schema.org''),
                    (''@type'', JString ''FAQPage''),
                    (''mainEntity'',
                     JArray (map question_entry
                               (filter (\<lambda>faq. truthy (q faq) \<and> truthy (a faq)) items)))]) \<and>
   buildFaqSchema [] = JObject [] \<and>
   buildFaqSchema [\<lparr>q = Some [], a = Some []\<rparr>] = JObject [] \<and>
   buildFaqSchema [\<lparr>q = Some ''A?'', a = None\<rparr>] = JObject [] \<and>
   buildFaqSchema [\<lparr>q = Some ''A?'', a = Some ''B.''\<rparr>] =
     JObject [(''@context'', JString ''https://schema.org''),
              (''@type'', JString ''FAQPage''),
              (''mainEntity'',
               JArray [JObject [(''@type'', JString ''Question''),
                                (''name'', JString ''A?''),
                                (''acceptedAnswer'',
                                 JObject [(''@type'', JString ''Answer''),
                                          (''text'', JString ''B.'')])]])] \<and>
   JObject [] \<noteq> JArray [] \<and> JObject [] \<noteq> JUndefined"
  by (simp add: buildFaqSchema_def truthy_def question_entry_def json_of_def Let_def)

section \<open>The render dispatcher\<close>

lemma get_slug_not_found:
  "findOne db s = None \<Longrightarrow> get_slug renderFile db s = \<lparr>status = 404, body = NotFoundDocument s\<rparr>"
  by (simp add: get_slug_def)

lemma resolve_templateDef_unknown:
  "map_of TEMPLATE_MAP key = None \<Longrightarrow> key \<notin> set object_prototype_properties \<Longrightarrow>
   resolve_templateDef key = map_of TEMPLATE_MAP ''minimal''"
  by (simp add: resolve_templateDef_def get_property_def TEMPLATE_MAP_def)

text \<open>
  Claim C9. A stored page whose template key is \<^verbatim>\<open>constructor\<close>, a key that the mapping
  does not hold: the lookup finds the property inherited from the prototype, so the
  default is not taken, the view file asked for is \<^verbatim>\<open>undefined.ejs\<close>, and with the three
  views of the mapping on disk the answer is the server-error document. A slug that no
  page has gets the not-found document.
\<close>

theorem get_slug_inherited_key:
  "findOne [sample_page ''plumber'' ''constructor''] ''plumber'' =
     Some (sample_page ''plumber'' ''constructor'') \<and>
   map_of TEMPLATE_MAP ''constructor'' = None \<and>
   resolve_templateDef ''constructor'' = Some inherited_value \<and>
   resolve_templateDef ''constructor'' \<noteq> map_of TEMPLATE_MAP ''minimal'' \<and>
   get_slug render_view_files [sample_page ''plumber'' ''constructor''] ''plumber'' =
     \<lparr>status = 500, body = ServerErrorDocument\<rparr> \<and>
   get_slug render_view_files [sample_page ''plumber'' ''no-such-key''] ''plumber'' =
     \<lparr>status = 200, body = ViewDocument ''basic'' ''Plumber'' (sample_page ''plumber'' ''no-such-key'')\<rparr> \<and>
   get_slug render_view_files [sample_page ''plumber'' ''constructor''] ''roofer'' =
     \<lparr>status = 404, body = NotFoundDocument ''roofer''\<rparr>"
  by (simp add: render_eval)

end
